theory Spec2Isabelle
  imports Complex_Main
begin

section \<open>The playback state synchronizer of AudioManager.tsx\<close>

text \<open>
  The component \<open>AudioManager\<close> owns two media elements (the looping background track and
  the one-shot easter-egg effect), a shared audio-processing context, three pieces of React
  state (\<open>isMuted\<close>, \<open>isPlaying\<close>, \<open>easterEggActive\<close>) and a handful of refs. Its functions
  are sequences of writes and commands on these; the model below performs the same writes
  in the same order on an explicit state and records every one of them in a history.

  What is not in the component's file is the platform, and it is modelled as follows.
  \<^item> The platform stores a volume as an IEEE 754 double. A volume is modelled by the real
    number the double denotes, and the file's one piece of arithmetic, \<open>volume -= 0.05\<close>
    in the fade, by the double subtraction: the literal \<open>0.05\<close> is the double nearest to
    it, and the difference is rounded to the nearest double, ties to even (\<open>double\<close>).
    The other literals, \<open>0\<close>, \<open>0.5\<close> and \<open>1.0\<close>, are doubles as they stand.
  \<^item> \<open>pause()\<close> sets the element's \<open>paused\<close> attribute at once.
  \<^item> \<open>play()\<close> returns a promise, as its declared type \<open>Promise<void>\<close> says, and
    does not throw; so the guards \<open>playPromise !== undefined\<close> always pass and the
    \<open>catch\<close> blocks around a synchronous \<open>play()\<close> are not entered. The outcome of the
    request is supplied by the environment as a \<open>play_result\<close>: a fulfilled request
    clears \<open>paused\<close>, a request rejected with an error of some name leaves the element
    as it was. The handlers attached to the promise run in the same event as the call,
    once the code that issued the request has run to its end: the handlers of the
    effect's request after the rest of \<open>playEasterEggSound\<close>, those of a request issued
    by \<open>resumeBackgroundMusic\<close> after the rest of the function that called it.
  \<^item> \<open>resume()\<close> on a suspended context makes it running.
  \<^item> The element's lifecycle signals (\<open>playing\<close>, \<open>pause\<close>, \<open>ended\<close>) are
    delivered by the environment as events of their own.
  \<^item> A function of the component reads \<open>isMuted\<close> and \<open>isPlaying\<close> from the render in
    which it was created. These captured values are the explicit argument of type
    \<open>render\<close>; a caller that takes the function from the latest render passes
    \<open>render_of\<close> of the current state, a timer or promise callback keeps the values it
    was created with.
  \<^item> After each event React commits: the effects whose dependencies changed run, in the
    order in which the file declares them (\<open>commit\<close>).
  The visualisation (\<open>audioData\<close>, the animation frame) and the OS media-session mirror
  are left out: no function modelled here reads them.
\<close>

subsection \<open>Data\<close>

record track =
  paused :: bool
  volume :: real
  loop :: bool
  currentTime :: real

datatype track_id = BackgroundMusic | EasterEggSound

datatype notification = AudioMuteToggled | AudioPlayPauseToggled

datatype context_state = Suspended | Running

datatype action =
    Play track_id
  | Pause track_id
  | SetVolume track_id real
  | SetLoop track_id bool
  | SetCurrentTime track_id real
  | ResumeContext
  | Dispatch notification
  | SetIsMuted bool
  | SetIsPlaying bool
  | SetEasterEggActive bool

datatype play_result = Fulfilled | Rejected string

record render =
  cIsMuted :: bool
  cIsPlaying :: bool

text \<open>
  The state: the refs and the React state of the component, under their names in the file;
  \<open>listening\<close> says whether the interaction handler is still registered on the document,
  \<open>fadeIntervals\<close> holds the running fade intervals, each with the render it was created
  in, and \<open>history\<close> records every write to an element, every command, every state setter
  call and every notification, in the order in which they happen.
\<close>

record state =
  backgroundMusicRef :: "track option"
  easterEggSoundRef :: "track option"
  audioContextRef :: "context_state option"
  isMuted :: bool
  isPlaying :: bool
  easterEggActive :: bool
  isMutedRef :: bool
  isPlayingRef :: bool
  firstToggleDoneRef :: bool
  listening :: bool
  fadeIntervals :: "render list"
  history :: "action list"

definition render_of :: "state \<Rightarrow> render" where
  "render_of s = \<lparr>cIsMuted = isMuted s, cIsPlaying = isPlaying s\<rparr>"

subsection \<open>Writes and commands\<close>

definition emit :: "action \<Rightarrow> state \<Rightarrow> state" where
  "emit a s = s\<lparr>history := history s @ [a]\<rparr>"

definition on_track :: "track_id \<Rightarrow> (track \<Rightarrow> track) \<Rightarrow> state \<Rightarrow> state" where
  "on_track tid f s =
     (case tid of
        BackgroundMusic \<Rightarrow> s\<lparr>backgroundMusicRef := map_option f (backgroundMusicRef s)\<rparr>
      | EasterEggSound \<Rightarrow> s\<lparr>easterEggSoundRef := map_option f (easterEggSoundRef s)\<rparr>)"

definition set_volume :: "track_id \<Rightarrow> real \<Rightarrow> state \<Rightarrow> state" where
  "set_volume tid v s = emit (SetVolume tid v) (on_track tid (\<lambda>t. t\<lparr>volume := v\<rparr>) s)"

definition set_loop :: "track_id \<Rightarrow> bool \<Rightarrow> state \<Rightarrow> state" where
  "set_loop tid b s = emit (SetLoop tid b) (on_track tid (\<lambda>t. t\<lparr>loop := b\<rparr>) s)"

definition set_currentTime :: "track_id \<Rightarrow> real \<Rightarrow> state \<Rightarrow> state" where
  "set_currentTime tid x s =
     emit (SetCurrentTime tid x) (on_track tid (\<lambda>t. t\<lparr>currentTime := x\<rparr>) s)"

definition pause_track :: "track_id \<Rightarrow> state \<Rightarrow> state" where
  "pause_track tid s = emit (Pause tid) (on_track tid (\<lambda>t. t\<lparr>paused := True\<rparr>) s)"

definition play_track :: "track_id \<Rightarrow> play_result \<Rightarrow> state \<Rightarrow> state" where
  "play_track tid po s =
     emit (Play tid) (on_track tid (\<lambda>t. if po = Fulfilled then t\<lparr>paused := False\<rparr> else t) s)"

definition resume_context :: "state \<Rightarrow> state" where
  "resume_context s =
     (if audioContextRef s = Some Suspended
      then emit ResumeContext (s\<lparr>audioContextRef := Some Running\<rparr>)
      else s)"

definition setIsMuted :: "bool \<Rightarrow> state \<Rightarrow> state" where
  "setIsMuted b s = emit (SetIsMuted b) (s\<lparr>isMuted := b\<rparr>)"

definition setIsPlaying :: "bool \<Rightarrow> state \<Rightarrow> state" where
  "setIsPlaying b s = emit (SetIsPlaying b) (s\<lparr>isPlaying := b\<rparr>)"

definition setEasterEggActive :: "bool \<Rightarrow> state \<Rightarrow> state" where
  "setEasterEggActive b s = emit (SetEasterEggActive b) (s\<lparr>easterEggActive := b\<rparr>)"

subsection \<open>Double arithmetic\<close>

text \<open>
  \<open>binade d u x\<close> is the power of two \<open>2\<^sup>e\<close> with \<open>2\<^sup>e \<le> x < 2\<^sup>e\<^sup>+\<^sup>1\<close>, for positive \<open>x\<close>,
  found by doubling or halving \<open>x\<close>; \<open>d\<close> and \<open>u\<close> bound the number of doublings and of
  halvings. With \<open>d = 1022\<close> the search stops at the smallest normal binade, so that the
  numbers below it get the spacing of the subnormals; with \<open>u = 1023\<close> it reaches the
  largest binade (overflow to infinity is not modelled). \<open>ulp x\<close> is the distance between
  the doubles around \<open>x\<close>, which have 53 significant bits, and \<open>double x\<close> the multiple of
  \<open>ulp x\<close> nearest to \<open>x\<close>, the even one on a tie.
\<close>

fun binade :: "nat \<Rightarrow> nat \<Rightarrow> real \<Rightarrow> real" where
  "binade d u x =
     (if x < 1 then (case d of 0 \<Rightarrow> 1 | Suc d' \<Rightarrow> binade d' u (2 * x) / 2)
      else if 2 \<le> x then (case u of 0 \<Rightarrow> 1 | Suc u' \<Rightarrow> binade d u' (x / 2) * 2)
      else 1)"

declare binade.simps [simp del]

definition ulp :: "real \<Rightarrow> real" where
  "ulp x = binade 1022 1023 x / 2 ^ 52"

definition half_even :: "real \<Rightarrow> int" where
  "half_even q =
     (let f = \<lfloor>q\<rfloor> in
      if q - of_int f < 1 / 2 then f
      else if 1 / 2 < q - of_int f then f + 1
      else if even f then f else f + 1)"

definition double :: "real \<Rightarrow> real" where
  "double x =
     (if x = 0 then 0
      else if x < 0 then - (of_int (half_even (- x / ulp (- x))) * ulp (- x))
      else of_int (half_even (x / ulp x)) * ulp x)"

subsection \<open>The effects\<close>

text \<open>The effect that keeps the refs in sync with the state (lines 63--66).\<close>

definition sync_refs :: "state \<Rightarrow> state" where
  "sync_refs s = s\<lparr>isMutedRef := isMuted s, isPlayingRef := isPlaying s\<rparr>"

text \<open>The effect on \<open>[isMuted, easterEggActive]\<close> (lines 302--323).\<close>

definition mute_effect :: "state \<Rightarrow> state" where
  "mute_effect s =
     (case backgroundMusicRef s of
        None \<Rightarrow> s
      | Some bg \<Rightarrow>
         (case easterEggSoundRef s of
            None \<Rightarrow> s
          | Some egg \<Rightarrow>
              if isMuted s
              then set_volume EasterEggSound 0 (set_volume BackgroundMusic 0 s)
              else
                let s1 = set_volume BackgroundMusic 0.5 s;
                    s2 = (if easterEggActive s \<and> \<not> paused egg
                          then set_volume EasterEggSound 1.0 s1 else s1)
                in resume_context s2))"

text \<open>
  The effect on \<open>[isPlaying]\<close> (lines 327--365). Its \<open>catch\<close> only logs.
\<close>

definition playpause_effect :: "play_result \<Rightarrow> state \<Rightarrow> state" where
  "playpause_effect po s =
     (case backgroundMusicRef s of
        None \<Rightarrow> s
      | Some audio \<Rightarrow>
          let currentlyPlaying = (\<not> paused audio) in
          if isPlaying s \<noteq> currentlyPlaying
          then
            (if isPlaying s
             then
               let s1 = (if \<not> loop audio then set_loop BackgroundMusic True s else s);
                   s2 = resume_context s1
               in play_track BackgroundMusic po s2
             else pause_track BackgroundMusic s)
          else s)"

text \<open>
  The commit that follows an event: \<open>old\<close> is the state the last render showed, \<open>new\<close>
  the state the event's handler left. An effect runs when one of its dependencies differs,
  in the order of declaration. \<open>po\<close> is the outcome of the play request that the third
  effect may issue.
\<close>

definition commit :: "state \<Rightarrow> play_result \<Rightarrow> state \<Rightarrow> state" where
  "commit old po new =
     (let s1 = (if isMuted new \<noteq> isMuted old \<or> isPlaying new \<noteq> isPlaying old
                then sync_refs new else new);
          s2 = (if isMuted new \<noteq> isMuted old \<or> easterEggActive new \<noteq> easterEggActive old
                then mute_effect s1 else s1)
      in if isPlaying new \<noteq> isPlaying old then playpause_effect po s2 else s2)"

subsection \<open>The functions of the component\<close>

text \<open>\<open>toggleMute\<close> (lines 368--371).\<close>

definition toggleMute :: "state \<Rightarrow> state" where
  "toggleMute s = setIsMuted (\<not> isMuted s) (emit (Dispatch AudioMuteToggled) s)"

text \<open>\<open>togglePlayPause\<close> (lines 374--433). The \<open>catch\<close> of its play request only logs.\<close>

definition togglePlayPause :: "play_result \<Rightarrow> state \<Rightarrow> state" where
  "togglePlayPause po s =
     (case backgroundMusicRef s of
        None \<Rightarrow> s
      | Some bg \<Rightarrow>
          if \<not> firstToggleDoneRef s \<and> \<not> paused bg
          then
            let s1 = pause_track BackgroundMusic s;
                s2 = setIsPlaying False s1;
                s3 = s2\<lparr>firstToggleDoneRef := True\<rparr>
            in emit (Dispatch AudioPlayPauseToggled) s3
          else
            let s1 = (if paused bg
                      then play_track BackgroundMusic po (resume_context s)
                      else setIsPlaying False (pause_track BackgroundMusic s));
                s2 = s1\<lparr>firstToggleDoneRef := True\<rparr>
            in emit (Dispatch AudioPlayPauseToggled) s2)"

text \<open>
  \<open>resumeBackgroundMusic\<close> (lines 575--625), in two parts. The first is the code up to
  the play request (lines 577--593); its second component says whether the request was
  issued, so that its promise is pending. The second is the handlers of that promise
  (lines 595--611), which run when the code that called the function has run to its
  end: \<open>resumeBackgroundMusic_then r po rest\<close> is the call, the rest of the calling code,
  and then the handlers if a request is pending. A call of the function on its own has no
  such rest.
\<close>

definition resumeBackgroundMusic_call :: "render \<Rightarrow> play_result \<Rightarrow> state \<Rightarrow> state \<times> bool" where
  "resumeBackgroundMusic_call r po s =
     (case backgroundMusicRef s of
        None \<Rightarrow> (s, False)
      | Some bg \<Rightarrow>
          if \<not> cIsPlaying r then (s, False)
          else if \<not> paused bg then (s, False)
          else
            let s1 = (if \<not> loop bg then set_loop BackgroundMusic True s else s);
                s2 = resume_context s1
            in (play_track BackgroundMusic po s2, True))"

definition resumeBackgroundMusic_settled :: "play_result \<Rightarrow> state \<Rightarrow> state" where
  "resumeBackgroundMusic_settled po s =
     (case po of
        Fulfilled \<Rightarrow> s
      | Rejected e \<Rightarrow> if e \<noteq> ''AbortError'' then setIsPlaying False s else s)"

definition resumeBackgroundMusic_then ::
    "render \<Rightarrow> play_result \<Rightarrow> (state \<Rightarrow> state) \<Rightarrow> state \<Rightarrow> state" where
  "resumeBackgroundMusic_then r po rest s =
     (case resumeBackgroundMusic_call r po s of
        (s', pending) \<Rightarrow>
          if pending then resumeBackgroundMusic_settled po (rest s') else rest s')"

definition resumeBackgroundMusic :: "render \<Rightarrow> play_result \<Rightarrow> state \<Rightarrow> state" where
  "resumeBackgroundMusic r po s = resumeBackgroundMusic_then r po (\<lambda>s'. s') s"

text \<open>
  \<open>playEasterEggSound\<close> (lines 435--498). \<open>po\<close> is the outcome of the effect's play
  request, \<open>po_bg\<close> that of the background's if the rejection handler resumes it. The
  rejection handler calls \<open>resumeBackgroundMusic\<close> and then \<open>setEasterEggActive(false)\<close>
  (lines 484--485); the handlers of the resume request come after that.
\<close>

definition playEasterEggSound :: "render \<Rightarrow> play_result \<Rightarrow> play_result \<Rightarrow> state \<Rightarrow> state" where
  "playEasterEggSound r po po_bg s =
     (case easterEggSoundRef s of
        None \<Rightarrow> s
      | Some egg \<Rightarrow>
          let s1 = setEasterEggActive True s;
              wasPlaying = cIsPlaying r;
              s2 = (if backgroundMusicRef s1 \<noteq> None \<and> cIsPlaying r
                    then pause_track BackgroundMusic s1 else s1);
              s3 = set_volume EasterEggSound (if cIsMuted r then 0 else 1.0) s2;
              s4 = set_currentTime EasterEggSound 0 s3;
              s5 = play_track EasterEggSound po s4
          in (case po of
                Fulfilled \<Rightarrow> s5
              | Rejected e \<Rightarrow>
                  if wasPlaying
                  then resumeBackgroundMusic_then r po_bg (setEasterEggActive False) s5
                  else setEasterEggActive False s5))"

text \<open>
  One firing of the interval that \<open>stopEasterEggSound(true)\<close> starts (lines 504--523);
  the second component says whether the interval cleared itself. The comparison and the
  subtraction are those of doubles.
\<close>

definition fade_tick :: "render \<Rightarrow> play_result \<Rightarrow> state \<Rightarrow> state \<times> bool" where
  "fade_tick r po s =
     (case easterEggSoundRef s of
        None \<Rightarrow> (setEasterEggActive False s, True)
      | Some egg \<Rightarrow>
          if volume egg > double 0.05 \<and> \<not> cIsMuted r
          then (set_volume EasterEggSound (double (volume egg - double 0.05)) s, False)
          else
            let s1 = pause_track EasterEggSound s;
                s2 = (if \<not> cIsMuted r then set_volume EasterEggSound 1.0 s1 else s1)
            in (resumeBackgroundMusic_then r po (setEasterEggActive False) s2, True))"

text \<open>
  \<open>stopEasterEggSound\<close> (lines 500--533). With \<open>fadeOut\<close> the call only starts the
  interval, which keeps the render it was created in.
\<close>

definition stopEasterEggSound :: "render \<Rightarrow> bool \<Rightarrow> play_result \<Rightarrow> state \<Rightarrow> state" where
  "stopEasterEggSound r fadeOut po s =
     (case easterEggSoundRef s of
        None \<Rightarrow> s
      | Some egg \<Rightarrow>
          if fadeOut then s\<lparr>fadeIntervals := fadeIntervals s @ [r]\<rparr>
          else
            let s1 = pause_track EasterEggSound s;
                s2 = set_currentTime EasterEggSound 0 s1
            in resumeBackgroundMusic_then r po (setEasterEggActive False) s2)"

text \<open>
  The handler of \<open>click\<close>, \<open>keydown\<close> and \<open>touchstart\<close> (lines 143--164). It reads the
  refs, not a render; on success it removes itself.
\<close>

definition attemptPlayOnInteraction :: "play_result \<Rightarrow> state \<Rightarrow> state" where
  "attemptPlayOnInteraction po s =
     (case backgroundMusicRef s of
        None \<Rightarrow> s
      | Some bg \<Rightarrow>
          if \<not> isPlayingRef s \<and> \<not> isMutedRef s \<and> \<not> firstToggleDoneRef s
          then
            let s1 = play_track BackgroundMusic po s
            in (case po of
                  Fulfilled \<Rightarrow> (setIsPlaying True s1)\<lparr>listening := False\<rparr>
                | Rejected e \<Rightarrow> s1)
          else s)"

text \<open>
  The listeners on the background element (lines 96--117). The \<open>ended\<close> listener tests
  the \<open>isMuted\<close> of the first render, which is false.
\<close>

definition playing_signal :: "state \<Rightarrow> state" where
  "playing_signal s = setIsPlaying True s"

definition pause_signal :: "state \<Rightarrow> state" where
  "pause_signal s = setIsPlaying False s"

definition ended_signal :: "play_result \<Rightarrow> state \<Rightarrow> state" where
  "ended_signal po s =
     (case backgroundMusicRef s of
        None \<Rightarrow> s
      | Some bg \<Rightarrow> play_track BackgroundMusic po (set_currentTime BackgroundMusic 0 s))"

text \<open>The delayed autoplay attempt (lines 188--221).\<close>

definition autoplay :: "play_result \<Rightarrow> state \<Rightarrow> state" where
  "autoplay po s =
     (case backgroundMusicRef s of
        None \<Rightarrow> s
      | Some bg \<Rightarrow>
          let s1 = resume_context s;
              s2 = play_track BackgroundMusic po s1
          in (case po of
                Fulfilled \<Rightarrow> setIsPlaying True s2
              | Rejected e \<Rightarrow>
                  if e = ''NotAllowedError'' then setIsPlaying False s2
                  else if e \<noteq> ''AbortError'' then setIsPlaying False s2
                  else s2))"

text \<open>
  The state the initialisation leaves (lines 69--91, 223--225), for a context created in
  state \<open>c\<close>: the background at half volume and looping, the effect with the platform's
  default volume \<open>1\<close>. On mount the other effects run too; only the mute effect does
  anything.
\<close>

definition init :: "context_state \<Rightarrow> state" where
  "init c =
     \<lparr>backgroundMusicRef = Some \<lparr>paused = True, volume = 0.5, loop = True, currentTime = 0\<rparr>,
      easterEggSoundRef = Some \<lparr>paused = True, volume = 1, loop = False, currentTime = 0\<rparr>,
      audioContextRef = Some c,
      isMuted = False, isPlaying = False, easterEggActive = False,
      isMutedRef = False, isPlayingRef = False, firstToggleDoneRef = False,
      listening = True, fadeIntervals = [], history = []\<rparr>"

definition mount :: "context_state \<Rightarrow> state" where
  "mount c = mute_effect (init c)"

subsection \<open>Events\<close>

text \<open>
  What can happen to the component: a call of one of the functions it exposes, taken from
  the latest render; a firing of a fade interval (the \<open>n\<close>-th one running); a generic
  user interaction; a lifecycle signal of the background element; the autoplay timer.
\<close>

datatype event =
    ToggleMute
  | TogglePlayPause play_result
  | PlayEasterEggSound play_result play_result
  | StopEasterEggSound bool play_result
  | ResumeBackgroundMusic play_result
  | FadeTick nat play_result
  | Interaction play_result
  | PlayingSignal
  | PauseSignal
  | EndedSignal play_result
  | Autoplay play_result

definition fire_interval :: "nat \<Rightarrow> play_result \<Rightarrow> state \<Rightarrow> state" where
  "fire_interval n po s =
     (if n < length (fadeIntervals s)
      then
        (case fade_tick (fadeIntervals s ! n) po s of
           (s', cleared) \<Rightarrow>
             if cleared
             then s'\<lparr>fadeIntervals := take n (fadeIntervals s') @ drop (Suc n) (fadeIntervals s')\<rparr>
             else s')
      else s)"

fun handle :: "event \<Rightarrow> state \<Rightarrow> state" where
  "handle ToggleMute s = toggleMute s"
| "handle (TogglePlayPause po) s = togglePlayPause po s"
| "handle (PlayEasterEggSound po po_bg) s = playEasterEggSound (render_of s) po po_bg s"
| "handle (StopEasterEggSound fadeOut po) s = stopEasterEggSound (render_of s) fadeOut po s"
| "handle (ResumeBackgroundMusic po) s = resumeBackgroundMusic (render_of s) po s"
| "handle (FadeTick n po) s = fire_interval n po s"
| "handle (Interaction po) s = (if listening s then attemptPlayOnInteraction po s else s)"
| "handle PlayingSignal s = playing_signal s"
| "handle PauseSignal s = pause_signal s"
| "handle (EndedSignal po) s = ended_signal po s"
| "handle (Autoplay po) s = autoplay po s"

definition step :: "play_result \<Rightarrow> event \<Rightarrow> state \<Rightarrow> state" where
  "step cpo e s = commit s cpo (handle e s)"

fun run :: "(play_result \<times> event) list \<Rightarrow> state \<Rightarrow> state" where
  "run [] s = s"
| "run (ce # es) s = run es (step (fst ce) (snd ce) s)"

subsection \<open>Observations\<close>

text \<open>A transport command is a \<open>play()\<close> or a \<open>pause()\<close> on either element.\<close>

fun is_transport :: "action \<Rightarrow> bool" where
  "is_transport (Play tid) = True"
| "is_transport (Pause tid) = True"
| "is_transport a = False"

text \<open>\<open>follows a b h\<close>: in the history \<open>h\<close> some \<open>b\<close> comes after some \<open>a\<close>.\<close>

fun follows :: "action \<Rightarrow> action \<Rightarrow> action list \<Rightarrow> bool" where
  "follows a b [] = False"
| "follows a b (x # xs) = ((x = a \<and> b \<in> set xs) \<or> follows a b xs)"

definition effect_volume :: "state \<Rightarrow> real" where
  "effect_volume s = (case easterEggSoundRef s of None \<Rightarrow> 0 | Some egg \<Rightarrow> volume egg)"

text \<open>The platform keeps a volume between 0 and 1.\<close>

definition volume_in_range :: "state \<Rightarrow> bool" where
  "volume_in_range s = (0 \<le> effect_volume s \<and> effect_volume s \<le> 1)"

subsection \<open>Some sessions\<close>

text \<open>Autoplay succeeded and the element reported that it plays.\<close>

definition playing_state :: state where
  "playing_state =
     run [(Fulfilled, Autoplay Fulfilled), (Fulfilled, PlayingSignal)] (mount Suspended)"

text \<open>
  The effect was started over the playing background, which reported its pause.
\<close>

definition effect_state :: state where
  "effect_state =
     run [(Fulfilled, PlayEasterEggSound Fulfilled Fulfilled), (Fulfilled, PauseSignal)]
       playing_state"

text \<open>
  The user muted, a fade was started, and the user unmuted before its interval fired.
\<close>

definition unmuted_fade_state :: state where
  "unmuted_fade_state =
     run [(Fulfilled, ToggleMute), (Fulfilled, StopEasterEggSound True Fulfilled),
          (Fulfilled, ToggleMute)] effect_state"

text \<open>The same, with the fade started while unmuted and its interval about to fire.\<close>

definition fading_state :: state where
  "fading_state = run [(Fulfilled, StopEasterEggSound True Fulfilled)] effect_state"

section \<open>Properties\<close>

lemmas write_defs = emit_def on_track_def set_volume_def set_loop_def set_currentTime_def
  pause_track_def play_track_def resume_context_def setIsMuted_def setIsPlaying_def
  setEasterEggActive_def

lemmas effect_defs = sync_refs_def mute_effect_def playpause_effect_def commit_def

lemmas resume_defs = resumeBackgroundMusic_def resumeBackgroundMusic_then_def
  resumeBackgroundMusic_call_def resumeBackgroundMusic_settled_def

lemmas function_defs = toggleMute_def togglePlayPause_def resume_defs
  playEasterEggSound_def fade_tick_def stopEasterEggSound_def attemptPlayOnInteraction_def
  playing_signal_def pause_signal_def ended_signal_def autoplay_def fire_interval_def

lemma commit_same [simp]: "commit s cpo s = s"
  by (simp add: commit_def)

lemma mount_Running:
  "mount Running =
     \<lparr>backgroundMusicRef = Some \<lparr>paused = True, volume = 1 / 2, loop = True, currentTime = 0\<rparr>,
      easterEggSoundRef = Some \<lparr>paused = True, volume = 1, loop = False, currentTime = 0\<rparr>,
      audioContextRef = Some Running, isMuted = False, isPlaying = False,
      easterEggActive = False, isMutedRef = False, isPlayingRef = False,
      firstToggleDoneRef = False, listening = True, fadeIntervals = [],
      history = [SetVolume BackgroundMusic (1 / 2)]\<rparr>"
  by (simp add: mount_def init_def mute_effect_def write_defs)

lemma playing_state_eq:
  "playing_state =
     \<lparr>backgroundMusicRef = Some \<lparr>paused = False, volume = 1 / 2, loop = True, currentTime = 0\<rparr>,
      easterEggSoundRef = Some \<lparr>paused = True, volume = 1, loop = False, currentTime = 0\<rparr>,
      audioContextRef = Some Running, isMuted = False, isPlaying = True,
      easterEggActive = False, isMutedRef = False, isPlayingRef = True,
      firstToggleDoneRef = False, listening = True, fadeIntervals = [],
      history =
        [SetVolume BackgroundMusic (1 / 2), ResumeContext, Play BackgroundMusic,
         SetIsPlaying True, SetIsPlaying True]\<rparr>"
  by (simp add: playing_state_def mount_def init_def step_def autoplay_def playing_signal_def
      effect_defs write_defs)

lemma effect_state_eq:
  "effect_state =
     \<lparr>backgroundMusicRef = Some \<lparr>paused = True, volume = 1 / 2, loop = True, currentTime = 0\<rparr>,
      easterEggSoundRef = Some \<lparr>paused = False, volume = 1, loop = False, currentTime = 0\<rparr>,
      audioContextRef = Some Running, isMuted = False, isPlaying = False,
      easterEggActive = True, isMutedRef = False, isPlayingRef = False,
      firstToggleDoneRef = False, listening = True, fadeIntervals = [],
      history =
        [SetVolume BackgroundMusic (1 / 2), ResumeContext, Play BackgroundMusic,
         SetIsPlaying True, SetIsPlaying True, SetEasterEggActive True,
         Pause BackgroundMusic, SetVolume EasterEggSound 1, SetCurrentTime EasterEggSound 0,
         Play EasterEggSound, SetVolume BackgroundMusic (1 / 2), SetVolume EasterEggSound 1,
         SetIsPlaying False]\<rparr>"
  by (simp add: effect_state_def playing_state_eq step_def render_of_def playEasterEggSound_def
      pause_signal_def effect_defs write_defs)

lemma unmuted_fade_state_eq:
  "unmuted_fade_state =
     effect_state
       \<lparr>fadeIntervals := [\<lparr>cIsMuted = True, cIsPlaying = False\<rparr>],
        history := history effect_state
          @ [Dispatch AudioMuteToggled, SetIsMuted True, SetVolume BackgroundMusic 0,
             SetVolume EasterEggSound 0, Dispatch AudioMuteToggled, SetIsMuted False,
             SetVolume BackgroundMusic (1 / 2), SetVolume EasterEggSound 1]\<rparr>"
  by (simp add: unmuted_fade_state_def effect_state_eq step_def render_of_def toggleMute_def
      stopEasterEggSound_def effect_defs write_defs)

subsection \<open>Mute\<close>

text \<open>
  Claim C1, as amended. From any state in which both tracks exist, two calls of
  \<open>toggleMute\<close> in succession bring the mute flag back, change neither track's transport
  (after the first call as after the second, and without issuing a transport command), and
  leave the background at the level that belongs to the mute flag: \<open>0\<close> if the state was
  muted, \<open>0.5\<close> otherwise. The effect track is left at \<open>0\<close> if the state was muted, at
  \<open>1\<close> if it was unmuted with the effect active and playing, and at \<open>0\<close> in every other
  case; so its volume comes back only where it already had that value.
\<close>

theorem toggleMute_twice:
  fixes s :: state and c1 c2 :: play_result
  defines "s1 \<equiv> step c1 ToggleMute s"
  defines "s2 \<equiv> step c2 ToggleMute (step c1 ToggleMute s)"
  assumes "backgroundMusicRef s = Some bg" and "easterEggSoundRef s = Some egg"
  shows "isMuted s2 = isMuted s
       \<and> map_option paused (backgroundMusicRef s1) = Some (paused bg)
       \<and> map_option paused (easterEggSoundRef s1) = Some (paused egg)
       \<and> map_option paused (backgroundMusicRef s2) = Some (paused bg)
       \<and> map_option paused (easterEggSoundRef s2) = Some (paused egg)
       \<and> filter is_transport (history s2) = filter is_transport (history s)
       \<and> map_option volume (backgroundMusicRef s2) = Some (if isMuted s then 0 else 0.5)
       \<and> map_option volume (easterEggSoundRef s2) =
           Some (if isMuted s then 0
                 else if easterEggActive s \<and> \<not> paused egg then 1 else 0)"
  unfolding s1_def s2_def using assms(3,4)
  by (cases "isMuted s")
     (simp_all add: step_def toggleMute_def effect_defs write_defs Let_def)

theorem toggleMute_twice_witness:
  "backgroundMusicRef effect_state
     = Some \<lparr>paused = True, volume = 1 / 2, loop = True, currentTime = 0\<rparr>
   \<and> easterEggSoundRef effect_state
     = Some \<lparr>paused = False, volume = 1, loop = False, currentTime = 0\<rparr>
   \<and> map_option volume (backgroundMusicRef
        (step Fulfilled ToggleMute (step Fulfilled ToggleMute effect_state))) = Some (1 / 2)
   \<and> map_option volume (easterEggSoundRef
        (step Fulfilled ToggleMute (step Fulfilled ToggleMute effect_state))) = Some 1
   \<and> map_option paused (easterEggSoundRef
        (step Fulfilled ToggleMute (step Fulfilled ToggleMute effect_state))) = Some False"
proof -
  have bg: "backgroundMusicRef effect_state
     = Some \<lparr>paused = True, volume = 1 / 2, loop = True, currentTime = 0\<rparr>"
    and egg: "easterEggSoundRef effect_state
     = Some \<lparr>paused = False, volume = 1, loop = False, currentTime = 0\<rparr>"
    by (simp_all add: effect_state_eq)
  show ?thesis
    using bg egg toggleMute_twice [OF bg egg, of Fulfilled Fulfilled]
    by (simp add: effect_state_eq)
qed

text \<open>
  The claim as it stands fails on the idle effect track: after mounting it has the
  default volume \<open>1\<close>, and muting and unmuting leaves it at \<open>0\<close>.
\<close>

theorem toggleMute_twice_counterexample:
  "map_option volume
     (easterEggSoundRef (step Fulfilled ToggleMute (step Fulfilled ToggleMute (mount Running))))
   \<noteq> map_option volume (easterEggSoundRef (mount Running))"
  by (simp add: mount_Running step_def toggleMute_def effect_defs write_defs Let_def)

text \<open>
  Claim C2. With both tracks present, a call of \<open>toggleMute\<close> flips the mute flag; if the
  new state is muted both volumes are \<open>0\<close>; if it is unmuted the background is at \<open>0.5\<close>
  and the effect track is set to \<open>1\<close> exactly when the effect is active and not paused,
  and keeps its volume otherwise; neither \<open>paused\<close> attribute changes and no transport
  command is issued.
\<close>

theorem toggleMute_postcondition:
  fixes s :: state and cpo :: play_result
  defines "s' \<equiv> step cpo ToggleMute s"
  assumes "backgroundMusicRef s = Some bg" and "easterEggSoundRef s = Some egg"
  shows "isMuted s' = (\<not> isMuted s)
       \<and> (isMuted s' \<longrightarrow>
            map_option volume (backgroundMusicRef s') = Some 0
          \<and> map_option volume (easterEggSoundRef s') = Some 0)
       \<and> (\<not> isMuted s' \<longrightarrow>
            map_option volume (backgroundMusicRef s') = Some 0.5
          \<and> map_option volume (easterEggSoundRef s') =
              Some (if easterEggActive s \<and> \<not> paused egg then 1 else volume egg))
       \<and> map_option paused (backgroundMusicRef s') = Some (paused bg)
       \<and> map_option paused (easterEggSoundRef s') = Some (paused egg)
       \<and> filter is_transport (history s') = filter is_transport (history s)"
  unfolding s'_def using assms(2,3)
  by (simp add: step_def toggleMute_def effect_defs write_defs Let_def)

theorem toggleMute_postcondition_witness:
  "backgroundMusicRef playing_state
     = Some \<lparr>paused = False, volume = 1 / 2, loop = True, currentTime = 0\<rparr>
   \<and> easterEggSoundRef playing_state
     = Some \<lparr>paused = True, volume = 1, loop = False, currentTime = 0\<rparr>
   \<and> isMuted (step Fulfilled ToggleMute playing_state)
   \<and> map_option volume (backgroundMusicRef (step Fulfilled ToggleMute playing_state)) = Some 0
   \<and> map_option volume (easterEggSoundRef (step Fulfilled ToggleMute playing_state)) = Some 0
   \<and> map_option paused (backgroundMusicRef (step Fulfilled ToggleMute playing_state))
       = Some False"
proof -
  have bg: "backgroundMusicRef playing_state
     = Some \<lparr>paused = False, volume = 1 / 2, loop = True, currentTime = 0\<rparr>"
    and egg: "easterEggSoundRef playing_state
     = Some \<lparr>paused = True, volume = 1, loop = False, currentTime = 0\<rparr>"
    by (simp_all add: playing_state_eq)
  show ?thesis
    using bg egg toggleMute_postcondition [OF bg egg, of Fulfilled]
    by (simp add: playing_state_eq)
qed

subsection \<open>Resuming the background\<close>

text \<open>
  Claim C3. When the playing flag that \<open>resumeBackgroundMusic\<close> sees is false, or the
  background track is not paused, the call leaves the state as it is, history included: it
  issues no play request. This holds for the function taken from any render, and so for
  the call through the latest one.
\<close>

theorem resumeBackgroundMusic_idempotent:
  assumes "\<not> cIsPlaying r \<or> (\<exists>bg. backgroundMusicRef s = Some bg \<and> \<not> paused bg)"
  shows "resumeBackgroundMusic r po s = s
       \<and> (r = render_of s \<longrightarrow> step cpo (ResumeBackgroundMusic po) s = s)"
proof -
  have "resumeBackgroundMusic r po s = s"
    using assms by (auto simp: resume_defs split: option.splits)
  then show ?thesis
    by (auto simp: step_def)
qed

theorem resumeBackgroundMusic_idempotent_witness:
  "map_option paused (backgroundMusicRef playing_state) = Some False
   \<and> cIsPlaying (render_of playing_state)
   \<and> resumeBackgroundMusic (render_of playing_state) Fulfilled playing_state = playing_state
   \<and> step Fulfilled (ResumeBackgroundMusic Fulfilled) playing_state = playing_state"
proof -
  have h: "\<not> cIsPlaying (render_of playing_state)
      \<or> (\<exists>bg. backgroundMusicRef playing_state = Some bg \<and> \<not> paused bg)"
    by (simp add: playing_state_eq)
  show ?thesis
    using h resumeBackgroundMusic_idempotent [OF h, of Fulfilled Fulfilled]
    by (simp add: playing_state_eq render_of_def)
qed

text \<open>
  Claim C4. When the playing flag seen by \<open>resumeBackgroundMusic\<close> is true and the
  background track is paused, the call writes \<open>loop = true\<close> if the flag was off, then
  resumes the context if it was suspended, then issues the play request, in this order;
  afterwards the track loops and the context is not suspended; and if the request is
  rejected with an error other than \<open>AbortError\<close> the playing flag is set to false.
\<close>

theorem resumeBackgroundMusic_recovery:
  assumes "cIsPlaying r" and "backgroundMusicRef s = Some bg" and "paused bg"
  shows "history (resumeBackgroundMusic r po s) =
           history s
           @ (if loop bg then [] else [SetLoop BackgroundMusic True])
           @ (if audioContextRef s = Some Suspended then [ResumeContext] else [])
           @ [Play BackgroundMusic]
           @ (case po of
                Fulfilled \<Rightarrow> []
              | Rejected e \<Rightarrow> if e \<noteq> ''AbortError'' then [SetIsPlaying False] else [])
       \<and> map_option loop (backgroundMusicRef (resumeBackgroundMusic r po s)) = Some True
       \<and> audioContextRef (resumeBackgroundMusic r po s) =
           (if audioContextRef s = Some Suspended then Some Running else audioContextRef s)
       \<and> (\<forall>e. po = Rejected e \<and> e \<noteq> ''AbortError''
              \<longrightarrow> \<not> isPlaying (resumeBackgroundMusic r po s))"
  using assms
  by (simp add: resume_defs write_defs Let_def split: play_result.splits)

theorem resumeBackgroundMusic_recovery_witness:
  "cIsPlaying \<lparr>cIsMuted = False, cIsPlaying = True\<rparr>
   \<and> backgroundMusicRef (init Suspended)
       = Some \<lparr>paused = True, volume = 1 / 2, loop = True, currentTime = 0\<rparr>
   \<and> history (resumeBackgroundMusic \<lparr>cIsMuted = False, cIsPlaying = True\<rparr>
        (Rejected ''NotAllowedError'') (init Suspended))
       = [ResumeContext, Play BackgroundMusic, SetIsPlaying False]
   \<and> audioContextRef (resumeBackgroundMusic \<lparr>cIsMuted = False, cIsPlaying = True\<rparr>
        (Rejected ''NotAllowedError'') (init Suspended)) = Some Running
   \<and> \<not> isPlaying (resumeBackgroundMusic \<lparr>cIsMuted = False, cIsPlaying = True\<rparr>
        (Rejected ''NotAllowedError'') (init Suspended))"
proof -
  have r: "cIsPlaying \<lparr>cIsMuted = False, cIsPlaying = True\<rparr>"
    by simp
  have bg: "backgroundMusicRef (init Suspended)
       = Some \<lparr>paused = True, volume = 1 / 2, loop = True, currentTime = 0\<rparr>"
    by (simp add: init_def)
  have p: "paused \<lparr>paused = True, volume = 1 / 2, loop = True, currentTime = 0\<rparr>"
    by simp
  show ?thesis
    using bg resumeBackgroundMusic_recovery [OF r bg p, of "Rejected ''NotAllowedError''"]
    by (simp add: init_def)
qed

subsection \<open>The effect track\<close>

text \<open>What a commit leaves alone.\<close>

lemma sync_refs_fields [simp]:
  "backgroundMusicRef (sync_refs s) = backgroundMusicRef s"
  "easterEggActive (sync_refs s) = easterEggActive s"
  "isPlaying (sync_refs s) = isPlaying s"
  "isMuted (sync_refs s) = isMuted s"
  by (simp_all add: sync_refs_def)

lemma mute_effect_fields [simp]:
  "map_option paused (backgroundMusicRef (mute_effect s))
     = map_option paused (backgroundMusicRef s)"
  "easterEggActive (mute_effect s) = easterEggActive s"
  "isPlaying (mute_effect s) = isPlaying s"
  "isMuted (mute_effect s) = isMuted s"
  by (simp_all add: mute_effect_def write_defs Let_def split: option.splits)

lemma playpause_effect_fields [simp]:
  "easterEggActive (playpause_effect po s) = easterEggActive s"
  "isPlaying (playpause_effect po s) = isPlaying s"
  "isMuted (playpause_effect po s) = isMuted s"
  by (simp_all add: playpause_effect_def write_defs Let_def split: option.splits)

lemma playpause_effect_consistent:
  "map_option paused (backgroundMusicRef s) = Some (\<not> isPlaying s)
   \<Longrightarrow> playpause_effect po s = s"
  by (auto simp: playpause_effect_def split: option.splits)

lemma commit_flags [simp]:
  "easterEggActive (commit old po new) = easterEggActive new"
  "isPlaying (commit old po new) = isPlaying new"
  "isMuted (commit old po new) = isMuted new"
  by (simp_all add: commit_def Let_def)

lemma commit_background_paused:
  assumes "isPlaying new = isPlaying old
         \<or> map_option paused (backgroundMusicRef new) = Some (\<not> isPlaying new)"
  shows "map_option paused (backgroundMusicRef (commit old po new))
           = map_option paused (backgroundMusicRef new)"
proof -
  define s1 where "s1 = (if isMuted new \<noteq> isMuted old \<or> isPlaying new \<noteq> isPlaying old
                then sync_refs new else new)"
  define s2 where "s2 = (if isMuted new \<noteq> isMuted old \<or> easterEggActive new \<noteq> easterEggActive old
                then mute_effect s1 else s1)"
  have s2: "map_option paused (backgroundMusicRef s2) = map_option paused (backgroundMusicRef new)"
    "isPlaying s2 = isPlaying new"
    by (simp_all add: s1_def s2_def)
  have c: "commit old po new = (if isPlaying new \<noteq> isPlaying old then playpause_effect po s2 else s2)"
    by (simp add: commit_def s1_def s2_def)
  show ?thesis
  proof (cases "isPlaying new = isPlaying old")
    case True
    then show ?thesis by (simp add: c s2)
  next
    case False
    with assms have "map_option paused (backgroundMusicRef s2) = Some (\<not> isPlaying s2)"
      by (simp add: s2)
    then have "playpause_effect po s2 = s2"
      by (rule playpause_effect_consistent)
    then show ?thesis by (simp add: c s2)
  qed
qed

text \<open>When a commit pauses the background, and what it adds to the transport commands.\<close>

lemma playpause_effect_pauses:
  assumes "\<not> isPlaying s" and "backgroundMusicRef s \<noteq> None"
  shows "map_option paused (backgroundMusicRef (playpause_effect po s)) = Some True"
  using assms by (auto simp: playpause_effect_def write_defs)

lemma commit_pauses:
  assumes "\<not> isPlaying new" and "isPlaying old" and "backgroundMusicRef new \<noteq> None"
  shows "map_option paused (backgroundMusicRef (commit old po new)) = Some True"
proof -
  define s1 where "s1 = (if isMuted new \<noteq> isMuted old \<or> isPlaying new \<noteq> isPlaying old
                then sync_refs new else new)"
  define s2 where "s2 = (if isMuted new \<noteq> isMuted old \<or> easterEggActive new \<noteq> easterEggActive old
                then mute_effect s1 else s1)"
  have "map_option paused (backgroundMusicRef s2) = map_option paused (backgroundMusicRef new)"
    and i: "\<not> isPlaying s2"
    using assms(1) by (simp_all add: s1_def s2_def)
  with assms(3) have b: "backgroundMusicRef s2 \<noteq> None"
    by (metis option.map_disc_iff)
  have "commit old po new = playpause_effect po s2"
    using assms(1,2) by (simp add: commit_def s1_def s2_def)
  then show ?thesis
    using playpause_effect_pauses [OF i b] by simp
qed

lemma mute_effect_transport [simp]:
  "filter is_transport (history (mute_effect s)) = filter is_transport (history s)"
  by (simp add: mute_effect_def write_defs Let_def split: option.splits)

lemma commit_transport:
  assumes "isPlaying new = isPlaying old
         \<or> map_option paused (backgroundMusicRef new) = Some (\<not> isPlaying new)"
  shows "filter is_transport (history (commit old po new)) = filter is_transport (history new)"
proof -
  define s1 where "s1 = (if isMuted new \<noteq> isMuted old \<or> isPlaying new \<noteq> isPlaying old
                then sync_refs new else new)"
  define s2 where "s2 = (if isMuted new \<noteq> isMuted old \<or> easterEggActive new \<noteq> easterEggActive old
                then mute_effect s1 else s1)"
  have s2: "map_option paused (backgroundMusicRef s2) = map_option paused (backgroundMusicRef new)"
    "isPlaying s2 = isPlaying new"
    "filter is_transport (history s2) = filter is_transport (history new)"
    by (simp_all add: s1_def s2_def sync_refs_def)
  have c: "commit old po new = (if isPlaying new \<noteq> isPlaying old then playpause_effect po s2 else s2)"
    by (simp add: commit_def s1_def s2_def)
  show ?thesis
  proof (cases "isPlaying new = isPlaying old")
    case True
    then show ?thesis by (simp add: c s2)
  next
    case False
    with assms have "map_option paused (backgroundMusicRef s2) = Some (\<not> isPlaying s2)"
      by (simp add: s2)
    then have "playpause_effect po s2 = s2"
      by (rule playpause_effect_consistent)
    then show ?thesis by (simp add: c s2)
  qed
qed

text \<open>
  Claim C5, where the code departs from it. The background plays and the playing flag
  says so; the effect's play request is rejected, with whatever error. Within the call
  the rejection handler does what the claim says: after the call's own pause and the
  effect's request it asks the background to play again, then clears \<open>easterEggActive\<close>;
  a rejection of the resume request clears the playing flag after that. The background
  plays again if the resume request is fulfilled. But the pause that the call itself
  issued is reported afterwards: the listener clears the playing flag, and the effect on
  that flag, finding the element playing against it, pauses the background. Whatever the
  error and the outcome of the resume request, the background, which played before the
  call, is then left paused with the playing flag false.
\<close>

theorem failed_effect_background_stays_paused:
  fixes s :: state and e :: string and po_bg c1 c2 :: play_result
  defines "n1 \<equiv> playEasterEggSound (render_of s) (Rejected e) po_bg s"
  defines "s1 \<equiv> step c1 (PlayEasterEggSound (Rejected e) po_bg) s"
  defines "s2 \<equiv> run [(c1, PlayEasterEggSound (Rejected e) po_bg), (c2, PauseSignal)] s"
  assumes "backgroundMusicRef s = Some bg" and "\<not> paused bg" and "isPlaying s"
    and "easterEggSoundRef s = Some egg"
  shows "history n1 =
           history s
           @ [SetEasterEggActive True, Pause BackgroundMusic,
              SetVolume EasterEggSound (if isMuted s then 0 else 1),
              SetCurrentTime EasterEggSound 0, Play EasterEggSound]
           @ (if loop bg then [] else [SetLoop BackgroundMusic True])
           @ (if audioContextRef s = Some Suspended then [ResumeContext] else [])
           @ [Play BackgroundMusic, SetEasterEggActive False]
           @ (case po_bg of
                Fulfilled \<Rightarrow> []
              | Rejected e' \<Rightarrow> if e' \<noteq> ''AbortError'' then [SetIsPlaying False] else [])
       \<and> \<not> easterEggActive s1
       \<and> filter is_transport (history s1) =
           filter is_transport (history s)
           @ [Pause BackgroundMusic, Play EasterEggSound, Play BackgroundMusic]
       \<and> map_option paused (backgroundMusicRef s1) = Some (po_bg \<noteq> Fulfilled)
       \<and> map_option paused (backgroundMusicRef s2) = Some True
       \<and> \<not> isPlaying s2"
proof -
  have n1: "history n1 =
           history s
           @ [SetEasterEggActive True, Pause BackgroundMusic,
              SetVolume EasterEggSound (if isMuted s then 0 else 1),
              SetCurrentTime EasterEggSound 0, Play EasterEggSound]
           @ (if loop bg then [] else [SetLoop BackgroundMusic True])
           @ (if audioContextRef s = Some Suspended then [ResumeContext] else [])
           @ [Play BackgroundMusic, SetEasterEggActive False]
           @ (case po_bg of
                Fulfilled \<Rightarrow> []
              | Rejected e' \<Rightarrow> if e' \<noteq> ''AbortError'' then [SetIsPlaying False] else [])"
    and active: "\<not> easterEggActive n1"
    and paused: "map_option paused (backgroundMusicRef n1) = Some (po_bg \<noteq> Fulfilled)"
    and flag: "isPlaying n1 = isPlaying s \<or> \<not> isPlaying n1 \<and> po_bg \<noteq> Fulfilled"
    and bg1: "backgroundMusicRef n1 \<noteq> None"
    unfolding n1_def using assms(4-7)
    by (auto simp: playEasterEggSound_def resume_defs render_of_def write_defs Let_def
        split: play_result.splits)
  have s1: "s1 = commit s c1 n1"
    by (simp add: s1_def n1_def step_def)
  have ok: "isPlaying n1 = isPlaying s
         \<or> map_option paused (backgroundMusicRef n1) = Some (\<not> isPlaying n1)"
    using flag paused by auto
  have a: "\<not> easterEggActive s1"
    by (simp add: s1 active)
  have t: "filter is_transport (history s1) =
           filter is_transport (history s)
           @ [Pause BackgroundMusic, Play EasterEggSound, Play BackgroundMusic]"
    unfolding s1 commit_transport [OF ok] n1 by (simp split: play_result.splits)
  have p1: "map_option paused (backgroundMusicRef s1) = Some (po_bg \<noteq> Fulfilled)"
    unfolding s1 commit_background_paused [OF ok] by (rule paused)
  have i1: "isPlaying s1 = isPlaying n1"
    by (simp add: s1)
  have s2: "s2 = commit s1 c2 (pause_signal s1)"
    by (simp add: s2_def s1_def step_def)
  have q: "map_option paused (backgroundMusicRef (pause_signal s1))
             = map_option paused (backgroundMusicRef s1)"
    "\<not> isPlaying (pause_signal s1)"
    by (simp_all add: pause_signal_def write_defs)
  have i2: "\<not> isPlaying s2"
    by (simp add: s2 q)
  have p2: "map_option paused (backgroundMusicRef s2) = Some True"
  proof (cases "isPlaying s1")
    case True
    have "backgroundMusicRef (pause_signal s1) \<noteq> None"
      using q(1) p1 by (metis option.map_disc_iff option.distinct(1))
    then show ?thesis
      unfolding s2 using q(2) True by (intro commit_pauses)
  next
    case False
    with i1 flag assms(6) have "po_bg \<noteq> Fulfilled"
      by auto
    moreover have "map_option paused (backgroundMusicRef s2)
        = map_option paused (backgroundMusicRef (pause_signal s1))"
      unfolding s2 using False q(2) by (intro commit_background_paused) simp
    ultimately show ?thesis
      using p1 q(1) by simp
  qed
  from n1 a t p1 p2 i2 show ?thesis
    by blast
qed

theorem failed_effect_background_stays_paused_witness:
  "map_option paused (backgroundMusicRef playing_state) = Some False
   \<and> isPlaying playing_state
   \<and> map_option paused (backgroundMusicRef
        (step Fulfilled (PlayEasterEggSound (Rejected ''NotSupportedError'') Fulfilled)
           playing_state)) = Some False
   \<and> map_option paused (backgroundMusicRef
        (run [(Fulfilled, PlayEasterEggSound (Rejected ''NotSupportedError'') Fulfilled),
              (Fulfilled, PauseSignal)] playing_state)) = Some True
   \<and> \<not> isPlaying
        (run [(Fulfilled, PlayEasterEggSound (Rejected ''NotSupportedError'') Fulfilled),
              (Fulfilled, PauseSignal)] playing_state)"
proof -
  have bg: "backgroundMusicRef playing_state
      = Some \<lparr>paused = False, volume = 1 / 2, loop = True, currentTime = 0\<rparr>"
    and p: "\<not> paused \<lparr>paused = False, volume = 1 / 2, loop = True, currentTime = 0\<rparr>"
    and i: "isPlaying playing_state"
    and egg: "easterEggSoundRef playing_state
      = Some \<lparr>paused = True, volume = 1, loop = False, currentTime = 0\<rparr>"
    by (simp_all add: playing_state_eq)
  have q: "map_option paused (backgroundMusicRef playing_state) = Some False"
    by (simp add: bg)
  note inst = failed_effect_background_stays_paused [OF bg p i egg,
      of "''NotSupportedError''" Fulfilled Fulfilled Fulfilled]
  have a: "map_option paused (backgroundMusicRef
        (step Fulfilled (PlayEasterEggSound (Rejected ''NotSupportedError'') Fulfilled)
           playing_state)) = Some False"
    using inst by simp
  from q i a inst show ?thesis
    by blast
qed

text \<open>
  Claim C6, where the code departs from it. The background plays and the playing flag
  says so. \<open>playEasterEggSound\<close> pauses the background; the element reports the pause,
  and its listener clears the playing flag. \<open>stopEasterEggSound(false)\<close>, taken from the
  render that followed, calls \<open>resumeBackgroundMusic\<close>, which returns at its first test
  because that render's playing flag is false. Whatever the outcomes of the play requests,
  the background, which played before the effect, is left paused.
\<close>

theorem effect_round_trip_background_stays_paused:
  assumes "backgroundMusicRef s = Some bg" and "\<not> paused bg" and "isPlaying s"
    and "easterEggSoundRef s = Some egg"
  shows "map_option paused (backgroundMusicRef
           (run [(c1, PlayEasterEggSound Fulfilled po_bg),
                 (c2, PauseSignal),
                 (c3, StopEasterEggSound False po)] s)) = Some True"
proof -
  define n1 where "n1 = playEasterEggSound (render_of s) Fulfilled po_bg s"
  define s1 where "s1 = commit s c1 n1"
  define s2 where "s2 = commit s1 c2 (pause_signal s1)"
  define n3 where "n3 = stopEasterEggSound (render_of s2) False po s2"
  have n1: "map_option paused (backgroundMusicRef n1) = Some True" "isPlaying n1 = isPlaying s"
    using assms
    by (simp_all add: n1_def playEasterEggSound_def render_of_def write_defs Let_def)
  have s1: "map_option paused (backgroundMusicRef s1) = Some True"
    unfolding s1_def by (simp add: commit_background_paused n1)
  have p: "map_option paused (backgroundMusicRef (pause_signal s1)) = Some True"
    "\<not> isPlaying (pause_signal s1)"
    using s1 by (simp_all add: pause_signal_def write_defs)
  have s2: "map_option paused (backgroundMusicRef s2) = Some True" "\<not> isPlaying s2"
    unfolding s2_def by (simp_all add: commit_background_paused p)
  have "resumeBackgroundMusic_then (render_of s2) po rest x = rest x" for rest x
    using s2(2) by (simp add: resume_defs render_of_def split: option.splits)
  then have n3: "map_option paused (backgroundMusicRef n3) = Some True" "isPlaying n3 = isPlaying s2"
    using s2(1)
    by (simp_all add: n3_def stopEasterEggSound_def write_defs Let_def split: option.splits)
  have "map_option paused (backgroundMusicRef (commit s2 c3 n3)) = Some True"
    by (simp add: commit_background_paused n3)
  then show ?thesis
    by (simp add: step_def n1_def s1_def s2_def n3_def)
qed

theorem effect_round_trip_background_stays_paused_witness:
  "map_option paused (backgroundMusicRef playing_state) = Some False
   \<and> isPlaying playing_state
   \<and> map_option paused (backgroundMusicRef
        (run [(Fulfilled, PlayEasterEggSound Fulfilled Fulfilled),
              (Fulfilled, PauseSignal),
              (Fulfilled, StopEasterEggSound False Fulfilled)] playing_state)) = Some True"
proof -
  have bg: "backgroundMusicRef playing_state
      = Some \<lparr>paused = False, volume = 1 / 2, loop = True, currentTime = 0\<rparr>"
    and p: "\<not> paused \<lparr>paused = False, volume = 1 / 2, loop = True, currentTime = 0\<rparr>"
    and i: "isPlaying playing_state"
    and egg: "easterEggSoundRef playing_state
      = Some \<lparr>paused = True, volume = 1, loop = False, currentTime = 0\<rparr>"
    by (simp_all add: playing_state_eq)
  have q: "map_option paused (backgroundMusicRef playing_state) = Some False"
    by (simp add: bg)
  from q i
    effect_round_trip_background_stays_paused [OF bg p i egg, of Fulfilled Fulfilled
      Fulfilled Fulfilled Fulfilled]
  show ?thesis
    by blast
qed

text \<open>
  The round trip does hold for a caller that kept \<open>stopEasterEggSound\<close> from the render
  in which it called \<open>playEasterEggSound\<close> and calls it before the pause is reported: that
  function still sees the playing flag of before the effect.
\<close>

lemma effect_round_trip_captured_render:
  assumes "backgroundMusicRef s = Some bg" and "easterEggSoundRef s = Some egg"
    and "isPlaying s = (\<not> paused bg)"
  shows "map_option paused (backgroundMusicRef
           (stopEasterEggSound (render_of s) False Fulfilled
              (playEasterEggSound (render_of s) Fulfilled po_bg s))) = Some (paused bg)"
  using assms
  by (auto simp: render_of_def playEasterEggSound_def stopEasterEggSound_def
      resume_defs write_defs Let_def)

subsection \<open>The fade\<close>

text \<open>
  Rounding to a double moves a positive number below 2 up by at most \<open>2\<^sup>-\<^sup>5\<^sup>3\<close> and never
  below zero; so subtracting \<open>0.05\<close> from a volume of at most 1 gives a double strictly
  below the volume.
\<close>

lemma binade_pos: "0 < binade d u x"
proof (induction d u x rule: binade.induct)
  case (1 d u x)
  show ?case
    using "1.IH" by (subst binade.simps) (auto split: nat.splits)
qed

lemma binade_le_1: "x < 2 \<Longrightarrow> binade d u x \<le> 1"
proof (induction d u x rule: binade.induct)
  case (1 d u x)
  show ?case
  proof (cases "x < 1")
    case True
    show ?thesis
    proof (cases d)
      case 0
      with True show ?thesis by (subst binade.simps) simp
    next
      case (Suc d')
      have "binade d' u (2 * x) \<le> 1"
        using True Suc by (intro "1.IH"(1)) simp_all
      with True Suc show ?thesis by (subst binade.simps) simp
    qed
  next
    case False
    with "1.prems" show ?thesis by (subst binade.simps) simp
  qed
qed

lemma ulp_pos: "0 < ulp x"
  using binade_pos [of 1022 1023 x] by (simp add: ulp_def)

lemma ulp_small: "x < 2 \<Longrightarrow> ulp x \<le> 1 / 2 ^ 52"
  using binade_le_1 [of x 1022 1023] by (simp add: ulp_def divide_right_mono)

lemma half_even_upper: "of_int (half_even q) \<le> q + 1 / 2"
  unfolding half_even_def Let_def by (auto; linarith)

lemma half_even_nonneg: "0 \<le> q \<Longrightarrow> 0 \<le> half_even q"
  unfolding half_even_def Let_def by (auto; linarith?)

lemma double_upper:
  assumes "0 < x" and "x < 2"
  shows "double x \<le> x + 1 / 2 ^ 53"
proof -
  let ?u = "ulp x"
  have u: "0 < ?u" "?u \<le> 1 / 2 ^ 52"
    using ulp_pos ulp_small [OF assms(2)] by simp_all
  have "of_int (half_even (x / ?u)) * ?u \<le> (x / ?u + 1 / 2) * ?u"
    using half_even_upper [of "x / ?u"] u(1) by (simp add: mult_right_mono)
  also have "\<dots> = x + ?u / 2"
    using u(1) by (simp add: field_simps)
  also have "\<dots> \<le> x + 1 / 2 ^ 53"
    using u(2) by simp
  finally show ?thesis
    using assms(1) by (simp add: double_def)
qed

lemma double_nonneg: "0 \<le> x \<Longrightarrow> 0 \<le> double x"
proof -
  assume x: "0 \<le> x"
  have "0 \<le> x / ulp x"
    using x ulp_pos [of x] by simp
  then have "0 \<le> half_even (x / ulp x)"
    by (rule half_even_nonneg)
  then show ?thesis
    using x ulp_pos [of x] by (simp add: double_def)
qed

lemma double_0_05: "double 0.05 = 3602879701896397 / 72057594037927936"
  by code_simp

lemma double_sub_0_05:
  assumes "double 0.05 < v" and "v \<le> 1"
  shows "double (v - double 0.05) < v" and "0 \<le> double (v - double 0.05)"
proof -
  have c: "1 / 2 ^ 53 < double 0.05"
    unfolding double_0_05 by simp
  have x: "0 < v - double 0.05" "v - double 0.05 < 2"
    using assms c by simp_all
  have "double (v - double 0.05) \<le> v - double 0.05 + 1 / 2 ^ 53"
    using x by (rule double_upper)
  with c show "double (v - double 0.05) < v"
    by linarith
  show "0 \<le> double (v - double 0.05)"
    using x(1) by (intro double_nonneg) simp
qed

text \<open>
  The values of the platform: \<open>0.05\<close> is \<open>0x3FA999999999999A\<close>, and from \<open>1\<close> the
  subtraction gives \<open>0.95\<close>, then \<open>0.8999999999999999\<close>, and at the end, from
  \<open>0.09999999999999969\<close>, the value \<open>0.049999999999999684\<close>, which is below the literal.
\<close>

lemma double_fade_values:
  "double (1 - double 0.05) = 4278419646001971 / 4503599627370496"
  "double (4278419646001971 / 4503599627370496 - double 0.05)
     = 2026619832316723 / 2251799813685248"
  "double (7205759403792771 / 72057594037927936 - double 0.05)
     = 1801439850948187 / 36028797018963968"
  "(2026619832316723 / 2251799813685248 :: real) < 9 / 10"
  "(1801439850948187 / 36028797018963968 :: real) \<le> double 0.05"
  by code_simp+

lemma fading_state_eq:
  "fading_state = effect_state\<lparr>fadeIntervals := [\<lparr>cIsMuted = False, cIsPlaying = False\<rparr>]\<rparr>"
  by (simp add: fading_state_def effect_state_eq step_def render_of_def stopEasterEggSound_def
      commit_def)

text \<open>
  Claim C7, as amended. Take a firing of a fade interval that was created in an unmuted
  render, in any state in which the effect track exists with a volume of at most 1 (the
  platform's range, which every session keeps: \<open>effect_volume_in_range\<close> below),
  whatever happened since the fade was started or since the last firing. If the firing
  finds the volume above the literal \<open>0.05\<close>, it writes the double difference of the
  volume and \<open>0.05\<close>, which is strictly below the volume and not negative, it issues no
  transport command, and the commit that follows adds nothing.
  If it finds the volume at or below the literal, it is the last firing: it pauses the
  effect track first, and then resets the volume to \<open>1\<close>. So the pause is issued only by
  a firing that finds the volume at or below \<open>0.05\<close>.
\<close>

theorem fade_firing:
  assumes "\<not> cIsMuted r" and "easterEggSoundRef s = Some egg" and "volume egg \<le> 1"
  shows "(double 0.05 < volume egg \<longrightarrow>
            fade_tick r po s
              = (set_volume EasterEggSound (double (volume egg - double 0.05)) s, False)
          \<and> effect_volume (fst (fade_tick r po s)) = double (volume egg - double 0.05)
          \<and> effect_volume (fst (fade_tick r po s)) < volume egg
          \<and> 0 \<le> effect_volume (fst (fade_tick r po s))
          \<and> filter is_transport (history (fst (fade_tick r po s)))
              = filter is_transport (history s)
          \<and> (\<forall>n. n < length (fadeIntervals s) \<and> fadeIntervals s ! n = r \<longrightarrow>
                step cpo (FadeTick n po) s = fst (fade_tick r po s)))
       \<and> (volume egg \<le> double 0.05 \<longrightarrow>
            snd (fade_tick r po s)
          \<and> (\<exists>h. history (fst (fade_tick r po s))
                  = history s @ [Pause EasterEggSound, SetVolume EasterEggSound 1] @ h))"
proof (intro conjI impI)
  assume v: "double 0.05 < volume egg"
  show tick: "fade_tick r po s
      = (set_volume EasterEggSound (double (volume egg - double 0.05)) s, False)"
    using assms(1,2) v by (simp add: fade_tick_def)
  show vol: "effect_volume (fst (fade_tick r po s)) = double (volume egg - double 0.05)"
    using assms(2) by (simp add: tick effect_volume_def write_defs)
  show "effect_volume (fst (fade_tick r po s)) < volume egg"
    unfolding vol using v assms(3) by (rule double_sub_0_05)
  show "0 \<le> effect_volume (fst (fade_tick r po s))"
    unfolding vol using v assms(3) by (rule double_sub_0_05)
  show "filter is_transport (history (fst (fade_tick r po s))) = filter is_transport (history s)"
    by (simp add: tick write_defs)
  show "\<forall>n. n < length (fadeIntervals s) \<and> fadeIntervals s ! n = r \<longrightarrow>
          step cpo (FadeTick n po) s = fst (fade_tick r po s)"
    by (simp add: step_def fire_interval_def tick commit_def write_defs
        split: track_id.splits)
next
  assume v: "volume egg \<le> double 0.05"
  then have tick: "\<not> double 0.05 < volume egg"
    by simp
  show "snd (fade_tick r po s)"
    using assms(2) tick by (simp add: fade_tick_def Let_def split: prod.splits)
  show "\<exists>h. history (fst (fade_tick r po s))
          = history s @ [Pause EasterEggSound, SetVolume EasterEggSound 1] @ h"
    using assms(1,2) tick
    by (auto simp: fade_tick_def resume_defs
        write_defs Let_def split: option.splits play_result.splits)
qed

theorem fade_firing_witness:
  "easterEggSoundRef fading_state
     = Some \<lparr>paused = False, volume = 1, loop = False, currentTime = 0\<rparr>
   \<and> fadeIntervals fading_state = [\<lparr>cIsMuted = False, cIsPlaying = False\<rparr>]
   \<and> double 0.05 < 1
   \<and> effect_volume (step Fulfilled (FadeTick 0 Fulfilled) fading_state)
       = 4278419646001971 / 4503599627370496
   \<and> effect_volume (step Fulfilled (FadeTick 0 Fulfilled) fading_state) < 1
   \<and> filter is_transport (history (step Fulfilled (FadeTick 0 Fulfilled) fading_state))
       = filter is_transport (history fading_state)"
proof -
  let ?r = "\<lparr>cIsMuted = False, cIsPlaying = False\<rparr>"
  let ?egg = "\<lparr>paused = False, volume = 1, loop = False, currentTime = 0\<rparr>"
  have r: "\<not> cIsMuted ?r"
    by simp
  have egg: "easterEggSoundRef fading_state = Some ?egg"
    and iv: "fadeIntervals fading_state = [?r]"
    by (simp_all add: fading_state_eq effect_state_eq)
  have v: "volume ?egg \<le> 1"
    by simp
  have c: "double 0.05 < volume ?egg"
    unfolding double_0_05 by simp
  note inst = fade_firing [OF r egg v, of Fulfilled Fulfilled]
  from inst c have
    st0: "\<forall>n. n < length (fadeIntervals fading_state) \<and> fadeIntervals fading_state ! n = ?r \<longrightarrow>
           step Fulfilled (FadeTick n Fulfilled) fading_state
             = fst (fade_tick ?r Fulfilled fading_state)"
    and vol: "effect_volume (fst (fade_tick ?r Fulfilled fading_state))
      = double (volume ?egg - double 0.05)"
    and tr: "filter is_transport (history (fst (fade_tick ?r Fulfilled fading_state)))
      = filter is_transport (history fading_state)"
    by blast+
  have n: "0 < length (fadeIntervals fading_state) \<and> fadeIntervals fading_state ! 0 = ?r"
    by (simp add: iv)
  have st: "step Fulfilled (FadeTick 0 Fulfilled) fading_state
      = fst (fade_tick ?r Fulfilled fading_state)"
    using st0 n by blast
  have a: "effect_volume (step Fulfilled (FadeTick 0 Fulfilled) fading_state)
      = 4278419646001971 / 4503599627370496"
    using vol by (simp only: st track.select_convs double_fade_values(1))
  have b: "effect_volume (step Fulfilled (FadeTick 0 Fulfilled) fading_state) < 1"
    unfolding a by simp
  have t: "filter is_transport (history (step Fulfilled (FadeTick 0 Fulfilled) fading_state))
      = filter is_transport (history fading_state)"
    using tr by (simp only: st)
  have c': "double 0.05 < 1"
    unfolding double_0_05 by simp
  from egg iv c' a b t show ?thesis
    by blast
qed

text \<open>
  The claim as it stands fails for a fade started while muted: its interval tests the mute
  flag of the render it was created in and, finding it set, pauses at its first firing
  whatever the volume. Here the user has unmuted in between, which brought the playing
  effect back to full volume.
\<close>

theorem fade_pause_above_floor_counterexample:
  "fadeIntervals unmuted_fade_state = [\<lparr>cIsMuted = True, cIsPlaying = False\<rparr>]
   \<and> effect_volume unmuted_fade_state = 1
   \<and> \<not> effect_volume unmuted_fade_state \<le> 0.05
   \<and> history (step Fulfilled (FadeTick 0 Fulfilled) unmuted_fade_state)
       = history unmuted_fade_state
         @ [Pause EasterEggSound, SetEasterEggActive False, SetVolume BackgroundMusic (1 / 2)]"
  by (simp add: unmuted_fade_state_eq effect_state_eq effect_volume_def step_def
      fire_interval_def fade_tick_def resume_defs effect_defs write_defs)

text \<open>
  The hypothesis on the volume holds in every state that a session reaches: the component
  writes \<open>0\<close>, \<open>1\<close> and the differences above to the effect track, and nothing else.
\<close>

lemma effect_volume_write [simp]:
  "effect_volume (emit a s) = effect_volume s"
  "effect_volume (set_volume BackgroundMusic v s) = effect_volume s"
  "effect_volume (set_loop tid b s) = effect_volume s"
  "effect_volume (set_currentTime tid x s) = effect_volume s"
  "effect_volume (pause_track tid s) = effect_volume s"
  "effect_volume (play_track tid po s) = effect_volume s"
  "effect_volume (resume_context s) = effect_volume s"
  "effect_volume (setIsMuted b s) = effect_volume s"
  "effect_volume (setIsPlaying b s) = effect_volume s"
  "effect_volume (setEasterEggActive b s) = effect_volume s"
  "effect_volume (sync_refs s) = effect_volume s"
  by (simp_all add: effect_volume_def write_defs sync_refs_def
      split: track_id.splits option.splits)

lemma effect_volume_set:
  "effect_volume (set_volume EasterEggSound v s)
     = (if easterEggSoundRef s = None then 0 else v)"
  by (simp add: effect_volume_def write_defs split: option.splits)

lemma effect_volume_ref [simp]:
  "effect_volume (s\<lparr>firstToggleDoneRef := b\<rparr>) = effect_volume s"
  "effect_volume (s\<lparr>listening := b\<rparr>) = effect_volume s"
  "effect_volume (s\<lparr>fadeIntervals := rs\<rparr>) = effect_volume s"
  by (simp_all add: effect_volume_def)

lemma effect_volume_then:
  assumes "\<And>x. effect_volume (rest x) = effect_volume x"
  shows "effect_volume (resumeBackgroundMusic_then r po rest s) = effect_volume s"
proof -
  have "effect_volume (fst (resumeBackgroundMusic_call r po s)) = effect_volume s"
    by (simp add: resumeBackgroundMusic_call_def Let_def split: option.splits)
  moreover have "effect_volume (resumeBackgroundMusic_settled po x) = effect_volume x" for x
    by (simp add: resumeBackgroundMusic_settled_def split: play_result.splits)
  moreover obtain s' pending where eq: "resumeBackgroundMusic_call r po s = (s', pending)"
    by (cases "resumeBackgroundMusic_call r po s")
  ultimately show ?thesis
    using assms by (simp add: resumeBackgroundMusic_then_def eq)
qed

lemma effect_volume_resume [simp]:
  "effect_volume (resumeBackgroundMusic_then r po (setEasterEggActive b) s) = effect_volume s"
  "effect_volume (resumeBackgroundMusic r po s) = effect_volume s"
  by (simp_all add: effect_volume_then resumeBackgroundMusic_def)

lemma in_range_effects:
  assumes "volume_in_range s"
  shows "volume_in_range (mute_effect s)" and "volume_in_range (playpause_effect po s)"
  using assms
  by (auto simp: volume_in_range_def mute_effect_def playpause_effect_def effect_volume_set
      Let_def split: option.splits)

lemma in_range_commit:
  "volume_in_range new \<Longrightarrow> volume_in_range (commit old po new)"
  by (simp add: commit_def Let_def in_range_effects volume_in_range_def [of "sync_refs new"]
      volume_in_range_def [of new])

lemma in_range_fade_tick:
  assumes "volume_in_range s"
  shows "volume_in_range (fst (fade_tick r po s))"
proof (cases "easterEggSoundRef s")
  case None
  with assms show ?thesis
    by (simp add: fade_tick_def volume_in_range_def)
next
  case (Some egg)
  then have v: "volume egg \<le> 1"
    using assms by (simp add: volume_in_range_def effect_volume_def)
  show ?thesis
  proof (cases "double 0.05 < volume egg \<and> \<not> cIsMuted r")
    case True
    then have "double (volume egg - double 0.05) < volume egg"
      and "0 \<le> double (volume egg - double 0.05)"
      using v double_sub_0_05 [of "volume egg"] by blast+
    with True Some v show ?thesis
      by (simp add: fade_tick_def volume_in_range_def effect_volume_set)
  next
    case False
    with Some assms show ?thesis
      by (auto simp: fade_tick_def volume_in_range_def effect_volume_set Let_def)
  qed
qed

lemma in_range_handle: "volume_in_range s \<Longrightarrow> volume_in_range (handle e s)"
proof (cases e)
  case (FadeTick n po)
  assume s: "volume_in_range s"
  obtain s' cleared where eq: "fade_tick (fadeIntervals s ! n) po s = (s', cleared)"
    by (cases "fade_tick (fadeIntervals s ! n) po s")
  have "volume_in_range (fst (fade_tick (fadeIntervals s ! n) po s))"
    using s by (rule in_range_fade_tick)
  then have "volume_in_range s'"
    by (simp add: eq)
  with s show ?thesis
    by (simp add: FadeTick fire_interval_def volume_in_range_def eq)
next
  case (PlayEasterEggSound po po_bg)
  assume "volume_in_range s"
  then show ?thesis
    by (simp add: PlayEasterEggSound playEasterEggSound_def volume_in_range_def
        effect_volume_set Let_def split: option.splits play_result.splits)
next
  case (StopEasterEggSound fadeOut po)
  assume "volume_in_range s"
  then show ?thesis
    by (simp add: StopEasterEggSound stopEasterEggSound_def volume_in_range_def
        Let_def split: option.splits)
qed (auto simp: volume_in_range_def toggleMute_def togglePlayPause_def
      attemptPlayOnInteraction_def playing_signal_def pause_signal_def ended_signal_def
      autoplay_def Let_def split: option.splits play_result.splits)

lemma in_range_run: "volume_in_range s \<Longrightarrow> volume_in_range (run es s)"
  by (induction es arbitrary: s) (simp_all add: step_def in_range_commit in_range_handle)

lemma effect_volume_in_range:
  "0 \<le> effect_volume (run es (mount c)) \<and> effect_volume (run es (mount c)) \<le> 1"
proof -
  have "volume_in_range (mount c)"
    by (simp add: volume_in_range_def effect_volume_def mount_def init_def mute_effect_def
        write_defs Let_def)
  then have "volume_in_range (run es (mount c))"
    by (rule in_range_run)
  then show ?thesis
    by (simp add: volume_in_range_def)
qed

subsection \<open>Play, pause and the retry on interaction\<close>

text \<open>
  No function of the component resets \<open>firstToggleDoneRef\<close>, and none sets the
  background ref once it is empty; in either case the interaction handler does nothing.
\<close>

lemma firstToggleDone_write [simp]:
  "firstToggleDoneRef (emit a s) = firstToggleDoneRef s"
  "firstToggleDoneRef (on_track tid f s) = firstToggleDoneRef s"
  by (simp_all add: emit_def on_track_def split: track_id.splits)

lemma firstToggleDone_writes [simp]:
  "firstToggleDoneRef (set_volume tid v s) = firstToggleDoneRef s"
  "firstToggleDoneRef (set_loop tid b s) = firstToggleDoneRef s"
  "firstToggleDoneRef (set_currentTime tid x s) = firstToggleDoneRef s"
  "firstToggleDoneRef (pause_track tid s) = firstToggleDoneRef s"
  "firstToggleDoneRef (play_track tid po s) = firstToggleDoneRef s"
  "firstToggleDoneRef (resume_context s) = firstToggleDoneRef s"
  "firstToggleDoneRef (setIsMuted b s) = firstToggleDoneRef s"
  "firstToggleDoneRef (setIsPlaying b s) = firstToggleDoneRef s"
  "firstToggleDoneRef (setEasterEggActive b s) = firstToggleDoneRef s"
  by (simp_all add: set_volume_def set_loop_def set_currentTime_def pause_track_def
      play_track_def resume_context_def setIsMuted_def setIsPlaying_def setEasterEggActive_def)

lemma firstToggleDone_resume [simp]:
  "firstToggleDoneRef (resumeBackgroundMusic r po s) = firstToggleDoneRef s"
  by (simp add: resume_defs Let_def split: option.splits play_result.splits)

lemma firstToggleDone_commit [simp]:
  "firstToggleDoneRef (commit old po new) = firstToggleDoneRef new"
  by (simp add: effect_defs Let_def split: option.splits)

lemma firstToggleDone_handle:
  "firstToggleDoneRef s \<Longrightarrow> firstToggleDoneRef (handle e s)"
  by (cases e)
     (auto simp: function_defs Let_def split: option.splits play_result.splits prod.splits)

lemma firstToggleDone_step: "firstToggleDoneRef s \<Longrightarrow> firstToggleDoneRef (step c e s)"
  by (simp add: step_def firstToggleDone_handle)

lemma firstToggleDone_run: "firstToggleDoneRef s \<Longrightarrow> firstToggleDoneRef (run es s)"
  by (induction es arbitrary: s) (simp_all add: firstToggleDone_step)

lemma no_background_write [simp]:
  "backgroundMusicRef (emit a s) = backgroundMusicRef s"
  "backgroundMusicRef s = None \<Longrightarrow> backgroundMusicRef (on_track tid f s) = None"
  by (simp_all add: emit_def on_track_def split: track_id.splits)

lemma no_background_writes [simp]:
  assumes "backgroundMusicRef s = None"
  shows "backgroundMusicRef (set_volume tid v s) = None"
    and "backgroundMusicRef (set_loop tid b s) = None"
    and "backgroundMusicRef (set_currentTime tid x s) = None"
    and "backgroundMusicRef (pause_track tid s) = None"
    and "backgroundMusicRef (play_track tid po s) = None"
    and "backgroundMusicRef (resume_context s) = None"
    and "backgroundMusicRef (setIsMuted b s) = None"
    and "backgroundMusicRef (setIsPlaying b s) = None"
    and "backgroundMusicRef (setEasterEggActive b s) = None"
  using assms
  by (simp_all add: set_volume_def set_loop_def set_currentTime_def pause_track_def
      play_track_def resume_context_def setIsMuted_def setIsPlaying_def setEasterEggActive_def)

lemma no_background_commit [simp]:
  "backgroundMusicRef new = None \<Longrightarrow> backgroundMusicRef (commit old po new) = None"
  by (simp add: effect_defs Let_def)

lemma no_background_handle:
  "backgroundMusicRef s = None \<Longrightarrow> backgroundMusicRef (handle e s) = None"
  by (cases e)
     (auto simp: function_defs Let_def split: option.splits play_result.splits prod.splits)

lemma no_background_step:
  "backgroundMusicRef s = None \<Longrightarrow> backgroundMusicRef (step c e s) = None"
  by (simp add: step_def no_background_handle)

lemma no_background_run:
  "backgroundMusicRef s = None \<Longrightarrow> backgroundMusicRef (run es s) = None"
  by (induction es arbitrary: s) (simp_all add: no_background_step)

lemma interaction_idle:
  "firstToggleDoneRef s \<or> backgroundMusicRef s = None \<Longrightarrow> step c (Interaction po) s = s"
  by (auto simp: step_def attemptPlayOnInteraction_def split: option.splits)

lemma first_pause_step:
  assumes "\<not> firstToggleDoneRef s" and "backgroundMusicRef s = Some bg" and "\<not> paused bg"
  shows "step cpo (TogglePlayPause po) s =
     s\<lparr>backgroundMusicRef := Some (bg\<lparr>paused := True\<rparr>),
       isPlaying := False, firstToggleDoneRef := True,
       isPlayingRef := (if isPlaying s then False else isPlayingRef s),
       isMutedRef := (if isPlaying s then isMuted s else isMutedRef s),
       history := history s
         @ [Pause BackgroundMusic, SetIsPlaying False, Dispatch AudioPlayPauseToggled]\<rparr>"
  using assms
  by (simp add: step_def togglePlayPause_def effect_defs write_defs Let_def)

text \<open>
  Claim C8. Before any toggle, with the background playing, \<open>togglePlayPause\<close> pauses
  the track, sets the playing flag to false and then notifies, all within the call; the
  commit that follows adds nothing. From then on, whatever events come, the handler of
  \<open>click\<close>, \<open>keydown\<close> and \<open>touchstart\<close> leaves the state as it is: it issues no play
  request.
\<close>

theorem first_toggle_pause:
  fixes s :: state and cpo po :: play_result
  defines "s' \<equiv> step cpo (TogglePlayPause po) s"
  assumes "\<not> firstToggleDoneRef s" and "backgroundMusicRef s = Some bg" and "\<not> paused bg"
  shows "history (togglePlayPause po s)
           = history s @ [Pause BackgroundMusic, SetIsPlaying False, Dispatch AudioPlayPauseToggled]
       \<and> map_option paused (backgroundMusicRef (togglePlayPause po s)) = Some True
       \<and> \<not> isPlaying (togglePlayPause po s)
       \<and> history s' = history (togglePlayPause po s)
       \<and> map_option paused (backgroundMusicRef s') = Some True
       \<and> \<not> isPlaying s'
       \<and> firstToggleDoneRef s'
       \<and> (\<forall>es c po'. step c (Interaction po') (run es s') = run es s')"
proof -
  have call: "history (togglePlayPause po s)
           = history s @ [Pause BackgroundMusic, SetIsPlaying False, Dispatch AudioPlayPauseToggled]
       \<and> map_option paused (backgroundMusicRef (togglePlayPause po s)) = Some True
       \<and> \<not> isPlaying (togglePlayPause po s)"
    using assms(2-4) by (simp add: togglePlayPause_def write_defs Let_def)
  have after: "history s' = history (togglePlayPause po s)
       \<and> map_option paused (backgroundMusicRef s') = Some True
       \<and> \<not> isPlaying s' \<and> firstToggleDoneRef s'"
    unfolding s'_def first_pause_step [OF assms(2-4)] using call by simp
  then have "firstToggleDoneRef (run es s')" for es
    by (simp add: firstToggleDone_run)
  then have "step c (Interaction po') (run es s') = run es s'" for es c po'
    by (simp add: interaction_idle)
  with call after show ?thesis
    by blast
qed

theorem first_toggle_pause_witness:
  "\<not> firstToggleDoneRef playing_state
   \<and> map_option paused (backgroundMusicRef playing_state) = Some False
   \<and> map_option paused (backgroundMusicRef (step Fulfilled (TogglePlayPause Fulfilled) playing_state))
       = Some True
   \<and> \<not> isPlaying (step Fulfilled (TogglePlayPause Fulfilled) playing_state)
   \<and> step Fulfilled (Interaction Fulfilled)
        (run [(Fulfilled, ToggleMute), (Fulfilled, ToggleMute)]
           (step Fulfilled (TogglePlayPause Fulfilled) playing_state))
       = run [(Fulfilled, ToggleMute), (Fulfilled, ToggleMute)]
           (step Fulfilled (TogglePlayPause Fulfilled) playing_state)"
proof -
  have f: "\<not> firstToggleDoneRef playing_state"
    and bg: "backgroundMusicRef playing_state
      = Some \<lparr>paused = False, volume = 1 / 2, loop = True, currentTime = 0\<rparr>"
    and p: "\<not> paused \<lparr>paused = False, volume = 1 / 2, loop = True, currentTime = 0\<rparr>"
    by (simp_all add: playing_state_eq)
  note inst = first_toggle_pause [OF f bg p, of Fulfilled Fulfilled]
  have a: "map_option paused
        (backgroundMusicRef (step Fulfilled (TogglePlayPause Fulfilled) playing_state))
       = Some True"
    and b: "\<not> isPlaying (step Fulfilled (TogglePlayPause Fulfilled) playing_state)"
    and c: "\<forall>es c po'. step c (Interaction po')
          (run es (step Fulfilled (TogglePlayPause Fulfilled) playing_state))
        = run es (step Fulfilled (TogglePlayPause Fulfilled) playing_state)"
    using inst by blast+
  have q: "map_option paused (backgroundMusicRef playing_state) = Some False"
    by (simp add: bg)
  from f q a b c show ?thesis
    by blast
qed

text \<open>
  Claim C9, as amended. Every call of \<open>toggleMute\<close> emits the mute notification once,
  as its first action, before it asks for the mute flag to be flipped. Every call of
  \<open>togglePlayPause\<close> on an existing background track emits the play/pause notification
  once, as its last action, after the transport command (and, when pausing, after the
  playing flag was set); without a background track it does nothing.
\<close>

theorem notifications_emitted:
  "history (toggleMute s) = history s @ [Dispatch AudioMuteToggled, SetIsMuted (\<not> isMuted s)]
   \<and> (\<forall>bg. backgroundMusicRef s = Some bg \<longrightarrow>
         history (togglePlayPause po s) =
           history s
           @ (if paused bg
              then (if audioContextRef s = Some Suspended then [ResumeContext] else [])
                   @ [Play BackgroundMusic]
              else [Pause BackgroundMusic, SetIsPlaying False])
           @ [Dispatch AudioPlayPauseToggled])
   \<and> (backgroundMusicRef s = None \<longrightarrow> togglePlayPause po s = s)"
  by (simp add: toggleMute_def togglePlayPause_def write_defs Let_def)

theorem notifications_emitted_witness:
  "history (toggleMute playing_state)
     = history playing_state @ [Dispatch AudioMuteToggled, SetIsMuted True]
   \<and> history (togglePlayPause Fulfilled playing_state)
     = history playing_state
       @ [Pause BackgroundMusic, SetIsPlaying False, Dispatch AudioPlayPauseToggled]"
  using notifications_emitted [of playing_state Fulfilled]
  by (simp add: playing_state_eq)

text \<open>
  The claim as it stands fails on the order in \<open>toggleMute\<close>: the notification is not
  emitted after the flip.
\<close>

theorem notification_before_flip_counterexample:
  "drop (length (history (mount Running))) (history (toggleMute (mount Running)))
     = [Dispatch AudioMuteToggled, SetIsMuted True]
   \<and> \<not> follows (SetIsMuted True) (Dispatch AudioMuteToggled)
        (drop (length (history (mount Running))) (history (toggleMute (mount Running))))"
  by (simp add: toggleMute_def mount_Running write_defs)

text \<open>
  Claim C10. After a call of \<open>togglePlayPause\<close> on an existing background track, in
  either direction and whatever the outcome of its play request, \<open>firstToggleDoneRef\<close>
  is true after every further sequence of events; and after any call of
  \<open>togglePlayPause\<close> and any further events the interaction handler leaves the state as
  it is, so it issues no play request.
\<close>

theorem first_toggle_done_permanent:
  fixes s :: state and cpo po :: play_result
  defines "s' \<equiv> step cpo (TogglePlayPause po) s"
  shows "(backgroundMusicRef s \<noteq> None \<longrightarrow> firstToggleDoneRef (run es s'))
       \<and> step c (Interaction po') (run es s') = run es s'"
proof -
  have flag: "firstToggleDoneRef s'" if "backgroundMusicRef s \<noteq> None"
    using that unfolding s'_def
    by (auto simp: step_def togglePlayPause_def Let_def)
  have none: "backgroundMusicRef s' = None" if "backgroundMusicRef s = None"
    using that unfolding s'_def by (simp add: no_background_step)
  have "firstToggleDoneRef (run es s') \<or> backgroundMusicRef (run es s') = None"
    using flag none firstToggleDone_run [of s' es] no_background_run [of s' es]
    by (cases "backgroundMusicRef s") auto
  then have "step c (Interaction po') (run es s') = run es s'"
    by (rule interaction_idle)
  moreover have "firstToggleDoneRef (run es s')" if "backgroundMusicRef s \<noteq> None"
    using flag [OF that] by (rule firstToggleDone_run)
  ultimately show ?thesis
    by blast
qed

theorem first_toggle_done_permanent_witness:
  "backgroundMusicRef (mount Running) \<noteq> None
   \<and> history (step Fulfilled (Interaction (Rejected ''NotAllowedError'')) (mount Running))
       = history (mount Running) @ [Play BackgroundMusic]
   \<and> firstToggleDoneRef
        (run [(Fulfilled, PauseSignal)]
           (step Fulfilled (TogglePlayPause (Rejected ''NotAllowedError'')) (mount Running)))
   \<and> step Fulfilled (Interaction Fulfilled)
        (run [(Fulfilled, PauseSignal)]
           (step Fulfilled (TogglePlayPause (Rejected ''NotAllowedError'')) (mount Running)))
       = run [(Fulfilled, PauseSignal)]
           (step Fulfilled (TogglePlayPause (Rejected ''NotAllowedError'')) (mount Running))"
proof -
  have bg: "backgroundMusicRef (mount Running) \<noteq> None"
    by (simp add: mount_Running)
  have h: "history (step Fulfilled (Interaction (Rejected ''NotAllowedError'')) (mount Running))
       = history (mount Running) @ [Play BackgroundMusic]"
    by (simp add: mount_Running step_def attemptPlayOnInteraction_def commit_def write_defs)
  from bg h
    first_toggle_done_permanent [of "mount Running" "[(Fulfilled, PauseSignal)]"
      Fulfilled "Rejected ''NotAllowedError''" Fulfilled Fulfilled]
  show ?thesis
    by blast
qed

end
